theory Spec2Isabelle
  imports Complex_Main "HOL-Library.Multiset"
begin

chapter \<open>Scoring, ranking and round transitions of the placement portal\<close>

section \<open>Resume scoring (backend/utils/score\_resume.py)\<close>

text \<open>
  \<^verbatim>\<open>score_resume\<close> works on Python floats; the model uses the real numbers, so
  every arithmetic step is exact. Skill names are lower-cased with \<^verbatim>\<open>str.lower\<close>;
  the model lower-cases the ASCII letters A to Z and leaves every other character alone.
\<close>

definition lower_char :: "char \<Rightarrow> char" where
  "lower_char c =
     (let n = (of_char c :: nat) in if 65 \<le> n \<and> n \<le> 90 then char_of (n + 32) else c)"

definition lower :: "string \<Rightarrow> string" where
  "lower s = map lower_char s"

text \<open>
  The text block of \<^verbatim>\<open>score_resume\<close>. \<^verbatim>\<open>TfidfVectorizer\<close> and
  \<^verbatim>\<open>cosine_similarity\<close> belong to scikit-learn, not to the repository, so the
  similarity of two texts is a parameter: \<open>Some sim\<close> when the library returns
  \<open>sim\<close>, \<open>None\<close> when it raises (the bare \<^verbatim>\<open>except\<close> then sets the
  score to 0). An empty string is falsy in Python, so the library is only called when both
  texts are non-empty.
\<close>

definition text_score :: "(string \<Rightarrow> string \<Rightarrow> real option) \<Rightarrow> string \<Rightarrow> string \<Rightarrow> real" where
  "text_score similarity resume_text job_description =
     (if resume_text \<noteq> [] \<and> job_description \<noteq> [] then
        (case similarity resume_text job_description of
           Some sim \<Rightarrow> sim * 60
         | None \<Rightarrow> 0)
      else 0)"

text \<open>
  The skills block: the number of distinct lower-cased skills the two lists share, divided
  by the length of \<^verbatim>\<open>required_skills\<close> as a list, times 30. The inner test
  \<^verbatim>\<open>len(required_skills) > 0\<close> is kept as the source has it.
\<close>

definition skills_score :: "string list \<Rightarrow> string list \<Rightarrow> real" where
  "skills_score student_skills required_skills =
     (if required_skills \<noteq> [] \<and> student_skills \<noteq> [] then
        (let matched_skills = set (map lower student_skills) \<inter> set (map lower required_skills)
         in if length required_skills > 0
            then (real (card matched_skills) / real (length required_skills)) * 30
            else 0)
      else 0)"

text \<open>
  The CGPA block: the eligible branch normalises to the 0-10 scale, the other branch gives
  a share of 5, or 0 when the minimum is not positive.
\<close>

definition cgpa_score :: "real \<Rightarrow> real \<Rightarrow> real" where
  "cgpa_score student_cgpa min_cgpa =
     (if student_cgpa \<ge> min_cgpa then (student_cgpa / 10) * 10
      else if min_cgpa > 0 then (student_cgpa / min_cgpa) * 5 else 0)"

text \<open>
  Python's \<^verbatim>\<open>round(x, 2)\<close>: rounding to two decimal places, ties going to the
  even neighbour.
\<close>

definition round_half_even :: "real \<Rightarrow> int" where
  "round_half_even y =
     (let f = \<lfloor>y\<rfloor>; d = y - of_int f
      in if d < 1 / 2 then f
         else if d > 1 / 2 then f + 1
         else if even f then f else f + 1)"

definition py_round2 :: "real \<Rightarrow> real" where
  "py_round2 x = of_int (round_half_even (x * 100)) / 100"

text \<open>
  The whole scorer. The source clamps first and rounds second:
  \<^verbatim>\<open>round(min(100, max(0, total_score)), 2)\<close>.
\<close>

definition score_resume ::
  "(string \<Rightarrow> string \<Rightarrow> real option) \<Rightarrow> string \<Rightarrow> string list \<Rightarrow> real \<Rightarrow> string
     \<Rightarrow> string list \<Rightarrow> real \<Rightarrow> real" where
  "score_resume similarity resume_text student_skills student_cgpa job_description
       required_skills min_cgpa =
     (let total_score = text_score similarity resume_text job_description
                          + skills_score student_skills required_skills
                          + cgpa_score student_cgpa min_cgpa
      in py_round2 (min 100 (max 0 total_score)))"

text \<open>
  The clamp the specification speaks of, \<open>clamp x lo hi\<close>, used to state the result in
  the specification's order (round first, clamp second).
\<close>

definition clamp :: "real \<Rightarrow> real \<Rightarrow> real \<Rightarrow> real" where
  "clamp x lo hi = min hi (max lo x)"

section \<open>The stored documents (backend/server.py)\<close>

text \<open>
  The MongoDB documents as records. A field called \<^verbatim>\<open>id\<close> in the source is
  \<open>app_id\<close>, \<open>usr_id\<close> or \<open>drv_id\<close> here, the \<^verbatim>\<open>round\<close> of a history
  entry is \<open>round_name\<close>, and the fields of a profile and of a drive that share their
  name with a parameter of the scorer carry the prefix \<open>prof_\<close> or \<open>drv_\<close>.
  Timestamps are strings (the source stores ISO strings). \<open>ai_score = None\<close> is a
  document without the field; a stored score is always a number, since
  \<^verbatim>\<open>apply_to_drive\<close> stores what \<^verbatim>\<open>score_resume\<close> returned.
\<close>

record round_update =
  round_name :: string
  selected_at :: string

record application =
  app_id :: string
  drive_id :: string
  student_id :: string
  status :: string
  ai_score :: "real option"
  current_round :: string
  round_history :: "round_update list"
  applied_at :: string

record user =
  usr_id :: string
  email :: string
  name :: string
  role :: string

record student_profile =
  user_id :: string
  roll_number :: string
  prof_cgpa :: real
  prof_skills :: "string list"
  prof_resume_text :: "string option"

record drive =
  drv_id :: string
  company_name :: string
  drv_role :: string
  drv_description :: string
  drv_min_cgpa :: real
  drv_required_skills :: "string list"

record database =
  applications :: "application list"
  users :: "user list"
  profiles :: "student_profile list"
  drives :: "drive list"

datatype http_error = HTTPException nat string

text \<open>
  A collection is the list of its documents in storage order.
  \<^verbatim>\<open>find_one\<close> returns the first document the filter matches (or nothing),
  \<^verbatim>\<open>update_one\<close> changes the first document the filter matches (or nothing).
  \<open>stored db aid\<close> is the lookup \<^verbatim>\<open>db.applications.find_one({"id": aid})\<close>.
\<close>

fun find_one :: "('a \<Rightarrow> bool) \<Rightarrow> 'a list \<Rightarrow> 'a option" where
  "find_one p [] = None"
| "find_one p (x # xs) = (if p x then Some x else find_one p xs)"

definition stored :: "database \<Rightarrow> string \<Rightarrow> application option" where
  "stored db aid = find_one (\<lambda>a. app_id a = aid) (applications db)"

fun update_one :: "('a \<Rightarrow> bool) \<Rightarrow> ('a \<Rightarrow> 'a) \<Rightarrow> 'a list \<Rightarrow> 'a list" where
  "update_one p f [] = []"
| "update_one p f (x # xs) = (if p x then f x # xs else x # update_one p f xs)"

text \<open>
  \<^verbatim>\<open>str\<close> of a natural number, for the f-strings of the responses.
\<close>

fun string_of_nat :: "nat \<Rightarrow> string" where
  "string_of_nat n =
     (if n < 10 then [char_of (48 + n)]
      else string_of_nat (n div 10) @ [char_of (48 + n mod 10)])"

declare string_of_nat.simps [simp del]

section \<open>Ranking the applicants of a drive\<close>

text \<open>
  \<^verbatim>\<open>get_drive_applications\<close>: the role check, the query (at most 1000 documents,
  \<^verbatim>\<open>to_list(1000)\<close>), the enrichment of every application with the user and
  the profile of its student, and the sort. The key is
  \<^verbatim>\<open>x.get('ai_score', 0)\<close>. \<^verbatim>\<open>list.sort(key, reverse=True)\<close> is
  Python's stable sort with every comparison reversed; it is modelled by the stable
  insertion sort of the library on the negated key.
\<close>

record enriched_application = application +
  enr_student :: "user option"
  enr_profile :: "student_profile option"

definition enrich :: "database \<Rightarrow> application \<Rightarrow> enriched_application" where
  "enrich db app =
     application.extend app
       (enriched_application.fields
          (find_one (\<lambda>u. usr_id u = student_id app) (users db))
          (find_one (\<lambda>p. user_id p = student_id app) (profiles db)))"

definition score_key :: "'a application_scheme \<Rightarrow> real" where
  "score_key x = (case ai_score x of Some s \<Rightarrow> s | None \<Rightarrow> 0)"

definition sort_reverse :: "('a \<Rightarrow> real) \<Rightarrow> 'a list \<Rightarrow> 'a list" where
  "sort_reverse key xs = sort_key (\<lambda>x. - key x) xs"

definition drive_pool :: "database \<Rightarrow> string \<Rightarrow> enriched_application list" where
  "drive_pool db did =
     map (enrich db) (take 1000 (filter (\<lambda>a. drive_id a = did) (applications db)))"

definition get_drive_applications ::
  "string \<Rightarrow> user \<Rightarrow> database \<Rightarrow> http_error + enriched_application list" where
  "get_drive_applications did current_user db =
     (if role current_user \<notin> {''tpo'', ''hod''}
      then Inl (HTTPException 403 ''Only TPO/HOD can view applications'')
      else
        Inr (sort_reverse score_key (drive_pool db did)))"

section \<open>Round transitions\<close>

text \<open>
  The responses of the two endpoints, the contacts collected for notification and the
  mails handed to \<^verbatim>\<open>send_email\<close>. A failure of \<^verbatim>\<open>send_email\<close> is
  caught and logged inside the loop, so it changes neither the response nor the database;
  the model returns the list of mails that are attempted.
\<close>

record response =
  message :: string

record select_response = response +
  emails_sent :: nat

record contact =
  contact_email :: string
  contact_name :: string

record mail =
  mail_to :: string
  mail_subject :: string
  mail_body :: string

text \<open>
  The update \<^verbatim>\<open>$set current_round, $push round_history\<close> of one application.
\<close>

definition advance :: "string \<Rightarrow> string \<Rightarrow> application \<Rightarrow> application" where
  "advance next_round now a =
     a\<lparr>current_round := next_round,
       round_history := round_history a
          @ [\<lparr>round_name = next_round, selected_at = now\<rparr>]\<rparr>"

text \<open>
  The loop of \<^verbatim>\<open>select_for_round\<close> over the identifiers. \<open>clock i\<close> is what
  \<^verbatim>\<open>datetime.now(timezone.utc).isoformat()\<close> returns while the loop is at
  position \<open>i\<close> of the list. An identifier that matches no application is skipped.
\<close>

fun select_loop ::
  "string \<Rightarrow> (nat \<Rightarrow> string) \<Rightarrow> nat \<Rightarrow> string list \<Rightarrow> database \<Rightarrow> contact list
     \<Rightarrow> database \<times> contact list" where
  "select_loop next_round clock i [] db selected_emails = (db, selected_emails)"
| "select_loop next_round clock i (aid # rest) db selected_emails =
     (case find_one (\<lambda>a. app_id a = aid) (applications db) of
        None \<Rightarrow> select_loop next_round clock (Suc i) rest db selected_emails
      | Some application \<Rightarrow>
          let db' = db\<lparr>applications :=
                      update_one (\<lambda>a. app_id a = aid) (advance next_round (clock i))
                        (applications db)\<rparr>
          in (case find_one (\<lambda>u. usr_id u = student_id application) (users db') of
                None \<Rightarrow> select_loop next_round clock (Suc i) rest db' selected_emails
              | Some student \<Rightarrow>
                  select_loop next_round clock (Suc i) rest db'
                    (selected_emails
                       @ [\<lparr>contact_email = email student, contact_name = name student\<rparr>])))"

definition compose_mail :: "string \<Rightarrow> drive \<Rightarrow> contact \<Rightarrow> mail" where
  "compose_mail next_round drive student =
     (if next_round = ''Selected'' then
        \<lparr>mail_to = contact_email student,
         mail_subject = ''Congratulations! Selected for '' @ drv_role drive @ '' at ''
            @ company_name drive,
         mail_body = ''Dear '' @ contact_name student @ [CHR '','', CHR 0x0A, CHR 0x0A]
            @ ''Congratulations! You have been selected for the role of '' @ drv_role drive
            @ '' at '' @ company_name drive @ [CHR ''.'', CHR 0x0A, CHR 0x0A]
            @ ''Please contact the Training & Placement Office for further details.''
            @ [CHR 0x0A, CHR 0x0A] @ ''Best Regards,'' @ [CHR 0x0A]
            @ ''Training & Placement Officer''\<rparr>
      else
        \<lparr>mail_to = contact_email student,
         mail_subject = ''Selected for '' @ next_round @ '' Round - '' @ company_name drive,
         mail_body = ''Dear '' @ contact_name student @ [CHR '','', CHR 0x0A, CHR 0x0A]
            @ ''Congratulations! You have been shortlisted for the '' @ next_round
            @ '' round for the role of '' @ drv_role drive @ '' at '' @ company_name drive
            @ [CHR ''.'', CHR 0x0A, CHR 0x0A]
            @ ''Please check your dashboard for further details and schedule.''
            @ [CHR 0x0A, CHR 0x0A] @ ''Best Regards,'' @ [CHR 0x0A]
            @ ''Training & Placement Officer''\<rparr>)"

text \<open>
  \<^verbatim>\<open>select_for_round\<close>: 403 unless the caller is the TPO, 404 when the drive is
  unknown, otherwise the loop, the mails and the response. The message counts
  \<^verbatim>\<open>len(application_ids)\<close>, \<^verbatim>\<open>emails_sent\<close> counts the collected
  contacts.
\<close>

definition select_for_round ::
  "(nat \<Rightarrow> string) \<Rightarrow> user \<Rightarrow> string list \<Rightarrow> string \<Rightarrow> string \<Rightarrow> database
     \<Rightarrow> http_error + (select_response \<times> database \<times> mail list)" where
  "select_for_round clock current_user application_ids next_round did db =
     (if role current_user \<noteq> ''tpo''
      then Inl (HTTPException 403 ''Only TPO can select students'')
      else
        case find_one (\<lambda>d. drv_id d = did) (drives db) of
          None \<Rightarrow> Inl (HTTPException 404 ''Drive not found'')
        | Some drive \<Rightarrow>
            let (db', selected_emails) = select_loop next_round clock 0 application_ids db []
            in Inr (\<lparr>message = ''Selected '' @ string_of_nat (length application_ids)
                        @ '' students for '' @ next_round,
                      emails_sent = length selected_emails\<rparr>,
                    db',
                    map (compose_mail next_round drive) selected_emails))"

text \<open>
  \<^verbatim>\<open>reject_applications\<close>: one \<^verbatim>\<open>update_one\<close> per identifier, which
  sets \<^verbatim>\<open>current_round\<close> and nothing else.
\<close>

fun reject_loop :: "string list \<Rightarrow> database \<Rightarrow> database" where
  "reject_loop [] db = db"
| "reject_loop (aid # rest) db =
     reject_loop rest
       (db\<lparr>applications :=
             update_one (\<lambda>a. app_id a = aid) (\<lambda>a. a\<lparr>current_round := ''Rejected''\<rparr>)
               (applications db)\<rparr>)"

definition reject_applications ::
  "user \<Rightarrow> string list \<Rightarrow> database \<Rightarrow> http_error + (response \<times> database)" where
  "reject_applications current_user application_ids db =
     (if role current_user \<noteq> ''tpo''
      then Inl (HTTPException 403 ''Only TPO can reject students'')
      else Inr (\<lparr>message = ''Rejected '' @ string_of_nat (length application_ids)
                    @ '' applications''\<rparr>,
                reject_loop application_ids db))"

text \<open>
  An application as the \<^verbatim>\<open>Application\<close> model creates it: status and current
  round \<^verbatim>\<open>Applied\<close>, empty round history.
\<close>

definition new_application :: "string \<Rightarrow> string \<Rightarrow> string \<Rightarrow> real option \<Rightarrow> string \<Rightarrow> application" where
  "new_application aid did sid score now =
     \<lparr>app_id = aid, drive_id = did, student_id = sid, status = ''Applied'',
      ai_score = score, current_round = ''Applied'', round_history = [], applied_at = now\<rparr>"

section \<open>Concrete data for the examples\<close>

text \<open>
  One drive with four applications (scores 72.5, 91, 91, 40), their students, a TPO, a
  clock, and a batch of identifiers whose second element matches no application. A second
  database holds an application without a score.
\<close>

definition demo_user :: "string \<Rightarrow> string \<Rightarrow> user" where
  "demo_user uid r = \<lparr>usr_id = uid, email = uid @ ''@campus.example'', name = uid, role = r\<rparr>"

definition demo_drive :: drive where
  "demo_drive = \<lparr>drv_id = ''d1'', company_name = ''Acme'', drv_role = ''Engineer'',
     drv_description = ''Java developer role'', drv_min_cgpa = 7,
     drv_required_skills = [''java'', ''python'']\<rparr>"

definition demo_db :: database where
  "demo_db =
     \<lparr>applications =
        [new_application ''a1'' ''d1'' ''s1'' (Some 72.5) ''t0'',
         new_application ''a2'' ''d1'' ''s2'' (Some 91) ''t0'',
         new_application ''a3'' ''d1'' ''s3'' (Some 91) ''t0'',
         new_application ''a4'' ''d1'' ''s4'' (Some 40) ''t0''],
      users = [demo_user ''s1'' ''student'', demo_user ''s2'' ''student'',
               demo_user ''s3'' ''student'', demo_user ''s4'' ''student''],
      profiles = [],
      drives = [demo_drive]\<rparr>"

text \<open>
  \<open>has_contact db aid\<close>: the identifier matches a stored application whose student is
  a stored user, which is when the loop of \<^verbatim>\<open>select_for_round\<close> collects a
  contact.
\<close>

definition has_contact :: "database \<Rightarrow> string \<Rightarrow> bool" where
  "has_contact db aid =
     (case stored db aid of
        None \<Rightarrow> False
      | Some a \<Rightarrow> find_one (\<lambda>u. usr_id u = student_id a) (users db) \<noteq> None)"

definition demo_tpo :: user where
  "demo_tpo = demo_user ''t1'' ''tpo''"

definition demo_clock :: "nat \<Rightarrow> string" where
  "demo_clock i = ''2025-01-01T10:00:0'' @ string_of_nat i"

definition demo_batch :: "string list" where
  "demo_batch = [''a1'', ''zz'', ''a2'', ''a3'']"

definition unscored_db :: database where
  "unscored_db =
     \<lparr>applications =
        [new_application ''b1'' ''d2'' ''s1'' None ''t0'',
         new_application ''b2'' ''d2'' ''s2'' (Some 55) ''t0''],
      users = [demo_user ''s1'' ''student'', demo_user ''s2'' ''student''],
      profiles = [],
      drives = []\<rparr>"

section \<open>The composite score is clamped\<close>

lemma round_half_even_le: "y \<le> of_int n \<Longrightarrow> round_half_even y \<le> n"
proof -
  assume le: "y \<le> of_int n"
  have fl: "\<lfloor>y\<rfloor> \<le> n" using le by (simp add: floor_le_iff)
  show ?thesis
  proof (cases "\<lfloor>y\<rfloor> = n")
    case True
    have "of_int \<lfloor>y\<rfloor> \<le> y" by simp
    with True le have "y - of_int \<lfloor>y\<rfloor> = 0" by simp
    then show ?thesis using True by (simp add: round_half_even_def Let_def)
  next
    case False
    with fl have "\<lfloor>y\<rfloor> + 1 \<le> n" by simp
    then show ?thesis by (simp add: round_half_even_def Let_def)
  qed
qed

lemma round_half_even_ge: "of_int n \<le> y \<Longrightarrow> n \<le> round_half_even y"
proof -
  assume "of_int n \<le> y"
  then have "n \<le> \<lfloor>y\<rfloor>" by (simp add: le_floor_iff)
  then show ?thesis by (simp add: round_half_even_def Let_def)
qed

lemma round_half_even_of_int: "round_half_even (of_int n) = n"
  by (simp add: round_half_even_def)

lemma py_round2_le: "x \<le> of_int n \<Longrightarrow> py_round2 x \<le> of_int n"
proof -
  assume "x \<le> of_int n"
  then have "x * 100 \<le> of_int (n * 100)" by simp
  then have "round_half_even (x * 100) \<le> n * 100" by (rule round_half_even_le)
  then have "(of_int (round_half_even (x * 100)) :: real) \<le> of_int (n * 100)"
    by (simp only: of_int_le_iff)
  then show ?thesis by (simp add: py_round2_def)
qed

lemma py_round2_ge: "of_int n \<le> x \<Longrightarrow> of_int n \<le> py_round2 x"
proof -
  assume "of_int n \<le> x"
  then have "of_int (n * 100) \<le> x * 100" by simp
  then have "n * 100 \<le> round_half_even (x * 100)" by (rule round_half_even_ge)
  then have "(of_int (n * 100) :: real) \<le> of_int (round_half_even (x * 100))"
    by (simp only: of_int_le_iff)
  then show ?thesis by (simp add: py_round2_def)
qed

lemma py_round2_of_int: "py_round2 (of_int n) = of_int n"
proof -
  have "(of_int n :: real) * 100 = of_int (n * 100)" by simp
  then have "round_half_even (of_int n * 100) = n * 100"
    by (simp only: round_half_even_of_int)
  then show ?thesis by (simp add: py_round2_def)
qed

lemma py_round2_clamp_commute:
  "py_round2 (min 100 (max 0 t)) = clamp (py_round2 t) 0 100"
proof -
  have r0: "py_round2 0 = 0" using py_round2_of_int [of 0] by simp
  have r100: "py_round2 100 = 100" using py_round2_of_int [of 100] by simp
  consider "t \<le> 0" | "0 < t" "t < 100" | "100 \<le> t" by linarith
  then show ?thesis
  proof cases
    case 1
    then have "py_round2 t \<le> 0" using py_round2_le [of t 0] by simp
    with 1 r0 show ?thesis by (simp add: clamp_def max_def min_def)
  next
    case 2
    then have "0 \<le> py_round2 t" "py_round2 t \<le> 100"
      using py_round2_ge [of 0 t] py_round2_le [of t 100] by simp_all
    with 2 show ?thesis by (simp add: clamp_def max_def min_def)
  next
    case 3
    then have "100 \<le> py_round2 t" using py_round2_ge [of 100 t] by simp
    with 3 r100 show ?thesis by (simp add: clamp_def max_def min_def)
  qed
qed

text \<open>
  Claim C1. For every input, whatever the text similarity is (also when the library
  raises), \<^verbatim>\<open>score_resume\<close> returns the sum of the three sub-scores rounded to
  two decimal places and clamped to the interval from 0 to 100, so the result lies between
  0 and 100. The source clamps before it rounds; both orders give the same number.
\<close>

theorem score_resume_clamped:
  "score_resume similarity resume_text student_skills student_cgpa job_description
       required_skills min_cgpa
     = clamp (py_round2 (text_score similarity resume_text job_description
                          + skills_score student_skills required_skills
                          + cgpa_score student_cgpa min_cgpa)) 0 100
   \<and> 0 \<le> score_resume similarity resume_text student_skills student_cgpa job_description
            required_skills min_cgpa
   \<and> score_resume similarity resume_text student_skills student_cgpa job_description
            required_skills min_cgpa \<le> 100"
proof -
  have eq: "score_resume similarity resume_text student_skills student_cgpa job_description
       required_skills min_cgpa
     = clamp (py_round2 (text_score similarity resume_text job_description
                          + skills_score student_skills required_skills
                          + cgpa_score student_cgpa min_cgpa)) 0 100"
    by (simp add: score_resume_def Let_def py_round2_clamp_commute)
  have "0 \<le> clamp y 0 100 \<and> clamp y 0 100 \<le> 100" for y
    by (simp add: clamp_def)
  with eq show ?thesis by simp
qed

section \<open>The skills score divides by the length of the list\<close>

lemma matched_le_required:
  "card (set (map lower ss) \<inter> set (map lower rs)) \<le> card (set (map lower rs))"
  by (simp add: card_mono)

text \<open>
  Claim C9. For non-empty lists the skills score is the number of distinct lower-cased
  skills the two lists share, divided by the length of the list of required skills, times
  30. When the required skills repeat a name up to case and at least one skill matches, the
  score is strictly below the fraction taken over the distinct required skills. The score
  always lies between 0 and 30.
\<close>

theorem skills_score_divides_by_list_length:
  "(student_skills \<noteq> [] \<and> required_skills \<noteq> [] \<longrightarrow>
      skills_score student_skills required_skills
        = (real (card (set (map lower student_skills) \<inter> set (map lower required_skills)))
             / real (length required_skills)) * 30)
   \<and> (student_skills \<noteq> [] \<and> required_skills \<noteq> []
        \<and> \<not> distinct (map lower required_skills)
        \<and> set (map lower student_skills) \<inter> set (map lower required_skills) \<noteq> {} \<longrightarrow>
      skills_score student_skills required_skills
        < (real (card (set (map lower student_skills) \<inter> set (map lower required_skills)))
             / real (card (set (map lower required_skills)))) * 30)
   \<and> 0 \<le> skills_score student_skills required_skills
   \<and> skills_score student_skills required_skills \<le> 30"
proof -
  let ?m = "card (set (map lower student_skills) \<inter> set (map lower required_skills))"
  let ?d = "card (set (map lower required_skills))"
  let ?n = "length required_skills"
  have md: "?m \<le> ?d" by (rule matched_le_required)
  have dn: "?d \<le> ?n" using card_length [of "map lower required_skills"] by simp
  have formula: "skills_score student_skills required_skills = (real ?m / real ?n) * 30"
    if "student_skills \<noteq> []" "required_skills \<noteq> []"
    using that by (simp add: skills_score_def Let_def)
  have strict: "skills_score student_skills required_skills < (real ?m / real ?d) * 30"
    if ne: "student_skills \<noteq> []" "required_skills \<noteq> []"
      and dup: "\<not> distinct (map lower required_skills)"
      and hit: "set (map lower student_skills) \<inter> set (map lower required_skills) \<noteq> {}"
  proof -
    have "?d \<noteq> ?n" using dup card_distinct [of "map lower required_skills"] by auto
    with dn have lt: "?d < ?n" by simp
    have mpos: "0 < ?m" using hit by (simp add: card_gt_0_iff)
    with md have dpos: "0 < ?d" by simp
    have "real ?m / real ?n < real ?m / real ?d"
      using lt mpos dpos by (simp add: frac_less2)
    then have "(real ?m / real ?n) * 30 < (real ?m / real ?d) * 30"
      by (rule mult_strict_right_mono) simp
    then show ?thesis by (simp only: formula [OF ne])
  qed
  have lo: "0 \<le> skills_score student_skills required_skills"
    by (simp add: skills_score_def Let_def)
  have hi: "skills_score student_skills required_skills \<le> 30"
  proof (cases "student_skills \<noteq> [] \<and> required_skills \<noteq> []")
    case True
    then have npos: "0 < ?n" by simp
    from md dn have "real ?m \<le> real ?n" by simp
    with npos have "real ?m / real ?n \<le> 1" by simp
    then have "(real ?m / real ?n) * 30 \<le> 1 * 30"
      by (rule mult_right_mono) simp
    moreover have "skills_score student_skills required_skills = (real ?m / real ?n) * 30"
      using True by (intro formula) simp_all
    ultimately show ?thesis by linarith
  next
    case False
    then show ?thesis by (auto simp: skills_score_def)
  qed
  from formula strict lo hi show ?thesis by blast
qed

section \<open>The CGPA score at the threshold\<close>

lemma cgpa_score_below: "s < m \<Longrightarrow> 0 < m \<Longrightarrow> cgpa_score s m = (s / m) * 5"
  by (simp add: cgpa_score_def)

lemma cgpa_score_at_threshold: "cgpa_score m m = m"
  by (simp add: cgpa_score_def)

lemma cgpa_left_limit:
  assumes "0 < m"
  shows "((\<lambda>s. cgpa_score s m) \<longlongrightarrow> 5) (at_left m)"
proof -
  have "((\<lambda>s. (s / m) * 5) \<longlongrightarrow> (m / m) * 5) (at_left m)"
    by (intro tendsto_intros) (use assms in simp)
  then have lim: "((\<lambda>s. (s / m) * 5) \<longlongrightarrow> 5) (at_left m)"
    using assms by simp
  have ev: "eventually (\<lambda>s. (s / m) * 5 = cgpa_score s m) (at_left m)"
    by (rule eventually_at_leftI [of "m - 1"]) (use assms in \<open>simp_all add: cgpa_score_below\<close>)
  show ?thesis by (rule Lim_transform_eventually [OF lim ev])
qed

lemma cgpa_right_limit: "((\<lambda>s. cgpa_score s m) \<longlongrightarrow> m) (at_right m)"
proof -
  have lim: "((\<lambda>s. s) \<longlongrightarrow> m) (at_right m)"
    by (rule tendsto_ident_at)
  have ev: "eventually (\<lambda>s. s = cgpa_score s m) (at_right m)"
    by (rule eventually_at_rightI [of m "m + 1"]) (simp_all add: cgpa_score_def)
  show ?thesis by (rule Lim_transform_eventually [OF lim ev])
qed

lemma cgpa_isCont_iff:
  assumes "0 < m"
  shows "isCont (\<lambda>s. cgpa_score s m) m \<longleftrightarrow> m = 5"
proof
  assume "isCont (\<lambda>s. cgpa_score s m) m"
  then have "((\<lambda>s. cgpa_score s m) \<longlongrightarrow> cgpa_score m m) (at_left m)"
    by (simp add: isCont_def filterlim_at_split)
  then have "((\<lambda>s. cgpa_score s m) \<longlongrightarrow> m) (at_left m)"
    by (simp add: cgpa_score_at_threshold)
  from tendsto_unique [OF _ this cgpa_left_limit [OF assms]]
  show "m = 5" by simp
next
  assume m5: "m = 5"
  have "((\<lambda>s. cgpa_score s m) \<longlongrightarrow> cgpa_score m m) (at_left m)"
    using cgpa_left_limit [OF assms] m5 by (simp add: cgpa_score_at_threshold)
  moreover have "((\<lambda>s. cgpa_score s m) \<longlongrightarrow> cgpa_score m m) (at_right m)"
    using cgpa_right_limit [of m] by (simp add: cgpa_score_at_threshold)
  ultimately show "isCont (\<lambda>s. cgpa_score s m) m"
    by (simp add: isCont_def filterlim_at_split)
qed

text \<open>
  Claim C7, amended. For a positive minimum the penalty branch returns
  \<open>(student_cgpa / min_cgpa) * 5\<close>, which tends to 5 as the student's CGPA tends to
  the minimum from below, and at the minimum the eligible branch returns
  \<open>(min_cgpa / 10) * 10 = min_cgpa\<close>. So the score jumps at the threshold exactly
  when the minimum is not 5: it is continuous there if and only if \<open>min_cgpa = 5\<close>.
  For a minimum that is not positive the penalty branch returns 0.
\<close>

theorem cgpa_threshold_jump:
  "(0 < min_cgpa \<longrightarrow>
      (student_cgpa < min_cgpa \<longrightarrow> cgpa_score student_cgpa min_cgpa = (student_cgpa / min_cgpa) * 5)
      \<and> ((\<lambda>s. cgpa_score s min_cgpa) \<longlongrightarrow> 5) (at_left min_cgpa)
      \<and> cgpa_score min_cgpa min_cgpa = (min_cgpa / 10) * 10
      \<and> cgpa_score min_cgpa min_cgpa = min_cgpa
      \<and> (isCont (\<lambda>s. cgpa_score s min_cgpa) min_cgpa \<longleftrightarrow> min_cgpa = 5))
   \<and> (min_cgpa \<le> 0 \<and> student_cgpa < min_cgpa \<longrightarrow> cgpa_score student_cgpa min_cgpa = 0)"
proof -
  have "cgpa_score student_cgpa min_cgpa = 0" if "min_cgpa \<le> 0" "student_cgpa < min_cgpa"
    using that by (simp add: cgpa_score_def)
  moreover have "cgpa_score min_cgpa min_cgpa = (min_cgpa / 10) * 10"
    by (simp add: cgpa_score_def)
  ultimately show ?thesis
    using cgpa_score_below cgpa_left_limit cgpa_isCont_iff cgpa_score_at_threshold by blast
qed

text \<open>
  Claim C7, the amended statement at the minimum 7 (left limit 5, value 7, not continuous)
  and at the minimum 0 with the CGPA -1.
\<close>

theorem cgpa_threshold_jump_witness:
  "((\<lambda>s. cgpa_score s 7) \<longlongrightarrow> 5) (at_left 7)
   \<and> cgpa_score 6 7 = (6 / 7) * 5
   \<and> cgpa_score 7 7 = 7
   \<and> \<not> isCont (\<lambda>s. cgpa_score s 7) 7
   \<and> cgpa_score (- 1) 0 = 0"
  using cgpa_threshold_jump [of 7 6] cgpa_threshold_jump [of 0 "- 1"] by simp

text \<open>
  Claim C7 as stated fails at the minimum 5: the left limit 5 is the value at the
  threshold, and the score is continuous there.
\<close>

theorem cgpa_continuous_at_five: "isCont (\<lambda>s. cgpa_score s 5) 5"
  using cgpa_isCont_iff [of 5] by simp

section \<open>Lookups after an update\<close>

lemma find_one_update_one:
  assumes "\<And>a. key (f a) = key a"
  shows "find_one (\<lambda>a. key a = k) (update_one (\<lambda>a. key a = k') f xs)
           = (if k = k' then map_option f (find_one (\<lambda>a. key a = k) xs)
              else find_one (\<lambda>a. key a = k) xs)"
  by (induction xs) (auto simp: assms)

lemma length_update_one: "length (update_one p f xs) = length xs"
  by (induction xs) auto

lemma app_id_advance: "app_id (advance r t a) = app_id a"
  by (simp add: advance_def)

lemma stored_after_advance:
  "stored (db\<lparr>applications := update_one (\<lambda>a. app_id a = aid) (advance r t) (applications db)\<rparr>) k
     = (if k = aid then map_option (advance r t) (stored db k) else stored db k)"
  unfolding stored_def
  using find_one_update_one [of app_id "advance r t" k aid "applications db"]
  by (simp add: app_id_advance)

lemma stored_after_reject:
  "stored (db\<lparr>applications := update_one (\<lambda>a. app_id a = aid)
              (\<lambda>a. a\<lparr>current_round := ''Rejected''\<rparr>) (applications db)\<rparr>) k
     = (if k = aid then map_option (\<lambda>a. a\<lparr>current_round := ''Rejected''\<rparr>) (stored db k)
        else stored db k)"
  unfolding stored_def
  using find_one_update_one [of app_id "\<lambda>a. a\<lparr>current_round := ''Rejected''\<rparr>" k aid "applications db"]
  by simp

lemma stored_fold: "find_one (\<lambda>a. app_id a = aid) (applications db) = stored db aid"
  by (simp add: stored_def)

lemma reject_loop_stored:
  "stored (reject_loop ids db) k
     = (if k \<in> set ids then map_option (\<lambda>a. a\<lparr>current_round := ''Rejected''\<rparr>) (stored db k)
        else stored db k)"
proof (induction ids arbitrary: db)
  case Nil
  show ?case by simp
next
  case (Cons aid rest)
  show ?case
    by (cases "stored db k") (auto simp: Cons.IH stored_after_reject)
qed

lemma reject_loop_frame:
  "users (reject_loop ids db) = users db \<and> drives (reject_loop ids db) = drives db
   \<and> profiles (reject_loop ids db) = profiles db
   \<and> length (applications (reject_loop ids db)) = length (applications db)"
  by (induction ids arbitrary: db) (simp_all add: length_update_one)

lemma select_loop_untouched:
  "k \<notin> set ids \<Longrightarrow> stored (fst (select_loop r c i ids db sel)) k = stored db k"
proof (induction ids arbitrary: i db sel)
  case Nil
  show ?case by simp
next
  case (Cons aid rest)
  then have "k \<noteq> aid" "k \<notin> set rest" by auto
  then show ?case
    by (simp add: Cons.IH stored_fold stored_after_advance Let_def split: option.splits)
qed

lemma select_loop_once:
  "distinct ids \<Longrightarrow> j < length ids \<Longrightarrow> ids ! j = k \<Longrightarrow> stored db k = Some a
     \<Longrightarrow> stored (fst (select_loop r c i ids db sel)) k = Some (advance r (c (i + j)) a)"
proof (induction ids arbitrary: i j db sel)
  case Nil
  then show ?case by simp
next
  case (Cons aid rest)
  show ?case
  proof (cases j)
    case 0
    with Cons.prems have k: "aid = k" "k \<notin> set rest" by auto
    show ?thesis using k 0 Cons.prems(4)
      by (simp add: stored_fold Let_def select_loop_untouched stored_after_advance
          split: option.splits)
  next
    case (Suc j')
    with Cons.prems have ne: "aid \<noteq> k" and d: "distinct rest" and j': "j' < length rest"
      and at: "rest ! j' = k"
      by auto
    have keep: "stored (db\<lparr>applications := update_one (\<lambda>a. app_id a = aid) (advance r (c i))
                   (applications db)\<rparr>) k = Some a"
      using ne Cons.prems(4) by (simp add: stored_after_advance)
    show ?thesis using Suc
      by (simp add: stored_fold Let_def Cons.IH [OF d j' at keep]
          Cons.IH [OF d j' at Cons.prems(4)] split: option.splits)
  qed
qed

lemma select_loop_frame:
  "users (fst (select_loop r c i ids db sel)) = users db
   \<and> drives (fst (select_loop r c i ids db sel)) = drives db
   \<and> profiles (fst (select_loop r c i ids db sel)) = profiles db
   \<and> length (applications (fst (select_loop r c i ids db sel))) = length (applications db)"
  by (induction ids arbitrary: i db sel)
     (simp_all add: Let_def length_update_one split: option.splits)

lemma select_loop_none:
  "stored db k = None \<Longrightarrow> stored (fst (select_loop r c i ids db sel)) k = None"
proof (induction ids arbitrary: i db sel)
  case Nil
  then show ?case by simp
next
  case (Cons aid rest)
  have "stored (db\<lparr>applications := update_one (\<lambda>a. app_id a = aid) (advance r (c i))
                   (applications db)\<rparr>) k = None"
    using Cons.prems by (auto simp: stored_after_advance)
  then show ?case using Cons.prems
    by (simp add: stored_fold Let_def Cons.IH split: option.splits)
qed

lemma select_loop_round:
  "stored db k = Some a \<Longrightarrow> k \<in> set ids \<or> current_round a = r
     \<Longrightarrow> \<exists>a'. stored (fst (select_loop r c i ids db sel)) k = Some a' \<and> current_round a' = r"
proof (induction ids arbitrary: i db sel a)
  case Nil
  then show ?case by simp
next
  case (Cons aid rest)
  let ?db' = "db\<lparr>applications := update_one (\<lambda>a. app_id a = aid) (advance r (c i))
                   (applications db)\<rparr>"
  show ?case
  proof (cases "stored db aid")
    case None
    with Cons.prems have "k \<noteq> aid" by auto
    with Cons.prems have "k \<in> set rest \<or> current_round a = r" by auto
    from Cons.IH [OF Cons.prems(1) this] show ?thesis
      using None by (simp add: stored_fold)
  next
    case (Some b)
    have "\<exists>a1. stored ?db' k = Some a1 \<and> (k \<in> set rest \<or> current_round a1 = r)"
    proof (cases "k = aid")
      case True
      then show ?thesis using Cons.prems(1)
        by (simp add: stored_after_advance advance_def)
    next
      case False
      then show ?thesis using Cons.prems
        by (simp add: stored_after_advance)
    qed
    then obtain a1 where a1: "stored ?db' k = Some a1" "k \<in> set rest \<or> current_round a1 = r"
      by blast
    from Cons.IH [OF a1] show ?thesis
      using Some by (simp add: stored_fold Let_def split: option.splits)
  qed
qed

lemma has_contact_after_advance:
  "has_contact (db\<lparr>applications := update_one (\<lambda>a. app_id a = aid) (advance r t)
                    (applications db)\<rparr>) k = has_contact db k"
  by (cases "stored db k"; cases "k = aid")
     (auto simp: has_contact_def stored_after_advance advance_def)

lemma select_loop_count:
  "length (snd (select_loop r c i ids db sel)) = length sel + length (filter (has_contact db) ids)"
proof (induction ids arbitrary: i db sel)
  case Nil
  show ?case by simp
next
  case (Cons aid rest)
  let ?db' = "db\<lparr>applications := update_one (\<lambda>a. app_id a = aid) (advance r (c i))
                   (applications db)\<rparr>"
  have same: "filter (has_contact ?db') rest = filter (has_contact db) rest"
    by (simp add: has_contact_after_advance cong: filter_cong)
  show ?case
  proof (cases "stored db aid")
    case None
    then have "\<not> has_contact db aid" by (simp add: has_contact_def)
    with None show ?thesis by (simp add: stored_fold Cons.IH)
  next
    case (Some b)
    then have "has_contact db aid
                 = (find_one (\<lambda>u. usr_id u = student_id b) (users db) \<noteq> None)"
      by (simp add: has_contact_def)
    with Some show ?thesis
      by (simp add: stored_fold Let_def Cons.IH same split: option.splits)
  qed
qed

lemma sort_reverse_descending:
  "sorted_wrt (\<lambda>a b. key b \<le> key a) (sort_reverse key xs)"
proof -
  have "sorted (map (\<lambda>x. - key x) (sort_key (\<lambda>x. - key x) xs))"
    by (rule sorted_sort_key)
  then show ?thesis by (simp add: sort_reverse_def sorted_map)
qed

lemma sort_reverse_mset: "mset (sort_reverse key xs) = mset xs"
  by (simp add: sort_reverse_def)

lemma sort_reverse_stable:
  "filter (\<lambda>x. key x = s) (sort_reverse key xs) = filter (\<lambda>x. key x = s) xs"
proof -
  have "filter (\<lambda>x. - key x = - s) (sort_key (\<lambda>x. - key x) xs) = filter (\<lambda>x. - key x = - s) xs"
    by (rule sort_key_stable)
  then show ?thesis by (simp add: sort_reverse_def)
qed

lemma score_key_enrich: "score_key (enrich db a) = score_key a"
  by (simp add: score_key_def enrich_def application.defs)

section \<open>The round transitions\<close>

lemma demo_tpo_role: "role demo_tpo = ''tpo''"
  by (simp add: demo_tpo_def demo_user_def)

lemma demo_drive_found: "find_one (\<lambda>d. drv_id d = ''d1'') (drives demo_db) = Some demo_drive"
  by (simp add: demo_db_def demo_drive_def)

lemma demo_stored:
  "stored demo_db ''a1'' = Some (new_application ''a1'' ''d1'' ''s1'' (Some 72.5) ''t0'')"
  "stored demo_db ''a2'' = Some (new_application ''a2'' ''d1'' ''s2'' (Some 91) ''t0'')"
  "stored demo_db ''a3'' = Some (new_application ''a3'' ''d1'' ''s3'' (Some 91) ''t0'')"
  "stored demo_db ''zz'' = None"
  by (simp_all add: stored_def demo_db_def new_application_def)

text \<open>
  Claim C5. A TPO advances a batch of distinct identifiers for an existing drive. For the
  application stored under the identifier at position \<open>j\<close>, the call returns a
  response, and afterwards the application is the old one with \<open>current_round\<close> set
  to the target round and exactly one record, the target round with the time read at
  position \<open>j\<close>, appended to \<open>round_history\<close>. For a fresh application (round
  Applied, empty history) the history afterwards is that one record.
\<close>

theorem advance_appends_one_record:
  assumes "role current_user = ''tpo''"
    and "find_one (\<lambda>d. drv_id d = did) (drives db) = Some drive"
    and "distinct application_ids"
    and "j < length application_ids"
    and "stored db (application_ids ! j) = Some a"
  shows "\<exists>resp db' out.
           select_for_round clock current_user application_ids next_round did db
             = Inr (resp, db', out)
           \<and> stored db' (application_ids ! j)
               = Some (a\<lparr>current_round := next_round,
                         round_history := round_history a
                            @ [\<lparr>round_name = next_round, selected_at = clock j\<rparr>]\<rparr>)
           \<and> (current_round a = ''Applied'' \<and> round_history a = [] \<longrightarrow>
                 (\<exists>a'. stored db' (application_ids ! j) = Some a'
                    \<and> current_round a' = next_round
                    \<and> round_history a' = [\<lparr>round_name = next_round, selected_at = clock j\<rparr>]))"
proof -
  obtain db' sel where loop: "select_loop next_round clock 0 application_ids db [] = (db', sel)"
    by (cases "select_loop next_round clock 0 application_ids db []")
  have "stored (fst (select_loop next_round clock 0 application_ids db [])) (application_ids ! j)
          = Some (advance next_round (clock (0 + j)) a)"
    using assms(3,4) refl assms(5) by (rule select_loop_once)
  with loop have st: "stored db' (application_ids ! j) = Some (advance next_round (clock j) a)"
    by simp
  have run: "select_for_round clock current_user application_ids next_round did db
          = Inr (\<lparr>message = ''Selected '' @ string_of_nat (length application_ids)
                      @ '' students for '' @ next_round,
                   emails_sent = length sel\<rparr>,
                 db', map (compose_mail next_round drive) sel)"
    using assms(1,2) loop by (simp add: select_for_round_def)
  from st have "stored db' (application_ids ! j)
               = Some (a\<lparr>current_round := next_round,
                         round_history := round_history a
                            @ [\<lparr>round_name = next_round, selected_at = clock j\<rparr>]\<rparr>)"
    by (simp add: advance_def)
  with run show ?thesis by simp
qed

text \<open>
  Claim C5 on the example: the fresh application a1 advanced to Coding has the round
  Coding and the one-entry history for Coding.
\<close>

theorem advance_appends_one_record_witness:
  "role demo_tpo = ''tpo''
   \<and> find_one (\<lambda>d. drv_id d = ''d1'') (drives demo_db) = Some demo_drive
   \<and> distinct [''a1'']
   \<and> stored demo_db ''a1'' = Some (new_application ''a1'' ''d1'' ''s1'' (Some 72.5) ''t0'')
   \<and> (\<exists>resp db' out.
         select_for_round demo_clock demo_tpo [''a1''] ''Coding'' ''d1'' demo_db
           = Inr (resp, db', out)
         \<and> stored db' ''a1''
             = Some \<lparr>app_id = ''a1'', drive_id = ''d1'', student_id = ''s1'',
                     status = ''Applied'', ai_score = Some 72.5, current_round = ''Coding'',
                     round_history = [\<lparr>round_name = ''Coding'', selected_at = demo_clock 0\<rparr>],
                     applied_at = ''t0''\<rparr>)"
proof -
  have d: "distinct [''a1'']" and j: "(0::nat) < length [''a1'']" by simp_all
  have s: "stored demo_db ([''a1''] ! 0)
             = Some (new_application ''a1'' ''d1'' ''s1'' (Some 72.5) ''t0'')"
    by (simp add: demo_stored)
  from advance_appends_one_record [OF demo_tpo_role demo_drive_found d j s,
      of demo_clock "''Coding''"]
  obtain resp db' out where
    run: "select_for_round demo_clock demo_tpo [''a1''] ''Coding'' ''d1'' demo_db
            = Inr (resp, db', out)"
    and st: "stored db' ([''a1''] ! 0)
            = Some ((new_application ''a1'' ''d1'' ''s1'' (Some 72.5) ''t0'')
                \<lparr>current_round := ''Coding'',
                 round_history :=
                   round_history (new_application ''a1'' ''d1'' ''s1'' (Some 72.5) ''t0'')
                     @ [\<lparr>round_name = ''Coding'', selected_at = demo_clock 0\<rparr>]\<rparr>)"
    by blast
  from st have "stored db' ''a1''
             = Some \<lparr>app_id = ''a1'', drive_id = ''d1'', student_id = ''s1'',
                     status = ''Applied'', ai_score = Some 72.5, current_round = ''Coding'',
                     round_history = [\<lparr>round_name = ''Coding'', selected_at = demo_clock 0\<rparr>],
                     applied_at = ''t0''\<rparr>"
    by (simp add: new_application_def)
  with run demo_tpo_role demo_drive_found d demo_stored(1) show ?thesis by blast
qed

text \<open>
  Claim C4. A TPO rejects a batch that contains the identifier of a stored application.
  The call returns a response, and afterwards the application is the old one with
  \<open>current_round\<close> set to Rejected: its \<open>round_history\<close> is the same list as
  before, and no document is added to the collection.
\<close>

theorem reject_keeps_round_history:
  assumes "role current_user = ''tpo''"
    and "stored db aid = Some a"
    and "aid \<in> set application_ids"
  shows "\<exists>resp db' a'.
           reject_applications current_user application_ids db = Inr (resp, db')
           \<and> stored db' aid = Some a'
           \<and> current_round a' = ''Rejected''
           \<and> round_history a' = round_history a
           \<and> a' = a\<lparr>current_round := ''Rejected''\<rparr>
           \<and> length (applications db') = length (applications db)"
  using assms
  by (simp add: reject_applications_def reject_loop_stored reject_loop_frame)

text \<open>
  Claim C4 on the example: a2 is rejected and keeps its empty history.
\<close>

theorem reject_keeps_round_history_witness:
  "role demo_tpo = ''tpo''
   \<and> stored demo_db ''a2'' = Some (new_application ''a2'' ''d1'' ''s2'' (Some 91) ''t0'')
   \<and> ''a2'' \<in> set demo_batch
   \<and> (\<exists>resp db' a'.
         reject_applications demo_tpo demo_batch demo_db = Inr (resp, db')
         \<and> stored db' ''a2'' = Some a'
         \<and> current_round a' = ''Rejected''
         \<and> round_history a' = []
         \<and> length (applications db') = 4)"
proof -
  have m: "''a2'' \<in> set demo_batch" by (simp add: demo_batch_def)
  from reject_keeps_round_history [OF demo_tpo_role demo_stored(2) m]
  obtain resp db' a' where
    run: "reject_applications demo_tpo demo_batch demo_db = Inr (resp, db')"
    and st: "stored db' ''a2'' = Some a'" "current_round a' = ''Rejected''"
    and hist: "round_history a'
                 = round_history (new_application ''a2'' ''d1'' ''s2'' (Some 91) ''t0'')"
    and len: "length (applications db') = length (applications demo_db)"
    by blast
  from hist have h: "round_history a' = []" by (simp add: new_application_def)
  from len have l: "length (applications db') = 4" by (simp add: demo_db_def)
  from run st h l demo_tpo_role demo_stored(2) m show ?thesis by blast
qed

text \<open>
  Claim C3 as stated fails: the application a1 is rejected, and the following advance to
  Coding is accepted; it sets the round to Coding and appends a history record.
\<close>

theorem rejected_then_advanced:
  "(case reject_applications demo_tpo [''a1''] demo_db of
      Inl e \<Rightarrow> False
    | Inr (resp, db1) \<Rightarrow>
        map_option current_round (stored db1 ''a1'') = Some ''Rejected''
        \<and> map_option round_history (stored db1 ''a1'') = Some []
        \<and> (case select_for_round demo_clock demo_tpo [''a1''] ''Coding'' ''d1'' db1 of
             Inl e \<Rightarrow> False
           | Inr (resp2, db2, out) \<Rightarrow>
               map_option current_round (stored db2 ''a1'') = Some ''Coding''
               \<and> map_option round_history (stored db2 ''a1'')
                   = Some [\<lparr>round_name = ''Coding'', selected_at = demo_clock 0\<rparr>]))"
  by (simp add: reject_applications_def select_for_round_def demo_tpo_def demo_user_def
      demo_db_def demo_drive_def new_application_def stored_def advance_def)

text \<open>
  Claim C3, amended. For an application whose round is Rejected, a further reject leaves
  the application as it is (round Rejected, history unchanged), while an advance is
  accepted like any other: the round becomes the target round and one record is appended
  to the history. The source has no guard on the current round.
\<close>

theorem transitions_from_rejected:
  assumes "role current_user = ''tpo''"
    and "find_one (\<lambda>d. drv_id d = did) (drives db) = Some drive"
    and "distinct application_ids"
    and "j < length application_ids"
    and "stored db (application_ids ! j) = Some a"
    and "current_round a = ''Rejected''"
  shows "(\<exists>resp db'.
            reject_applications current_user application_ids db = Inr (resp, db')
            \<and> stored db' (application_ids ! j) = Some a)
       \<and> (\<exists>resp db' out a'.
            select_for_round clock current_user application_ids next_round did db
              = Inr (resp, db', out)
            \<and> stored db' (application_ids ! j) = Some a'
            \<and> current_round a' = next_round
            \<and> round_history a' = round_history a
                 @ [\<lparr>round_name = next_round, selected_at = clock j\<rparr>])"
proof -
  have "a\<lparr>current_round := ''Rejected''\<rparr> = a" using assms(6) by simp
  moreover have "application_ids ! j \<in> set application_ids" using assms(4) by simp
  ultimately have rej: "\<exists>resp db'.
            reject_applications current_user application_ids db = Inr (resp, db')
            \<and> stored db' (application_ids ! j) = Some a"
    using assms(1,5) by (simp add: reject_applications_def reject_loop_stored)
  obtain db' sel where loop: "select_loop next_round clock 0 application_ids db [] = (db', sel)"
    by (cases "select_loop next_round clock 0 application_ids db []")
  have "stored (fst (select_loop next_round clock 0 application_ids db [])) (application_ids ! j)
          = Some (advance next_round (clock (0 + j)) a)"
    using assms(3,4) refl assms(5) by (rule select_loop_once)
  with loop have "stored db' (application_ids ! j) = Some (advance next_round (clock j) a)"
    by simp
  then have sel: "\<exists>resp db' out a'.
            select_for_round clock current_user application_ids next_round did db
              = Inr (resp, db', out)
            \<and> stored db' (application_ids ! j) = Some a'
            \<and> current_round a' = next_round
            \<and> round_history a' = round_history a
                 @ [\<lparr>round_name = next_round, selected_at = clock j\<rparr>]"
    using assms(1,2) loop by (simp add: select_for_round_def advance_def)
  from rej sel show ?thesis by (rule conjI)
qed

lemma string_of_nat_4: "string_of_nat 4 = ''4''"
  by code_simp

lemma demo_batch_count: "string_of_nat (length demo_batch) = ''4''"
proof -
  have "length demo_batch = 4" by (simp add: demo_batch_def)
  then show ?thesis by (simp only: string_of_nat_4)
qed

lemma demo_batch_contacts: "filter (has_contact demo_db) demo_batch = [''a1'', ''a2'', ''a3'']"
  by (simp add: demo_batch_def has_contact_def demo_stored new_application_def)
     (simp add: demo_db_def demo_user_def)

text \<open>
  Claim C3, the amended statement on the example: a1 is rejected, rejected again, and
  advanced to HR.
\<close>

theorem transitions_from_rejected_witness:
  "role demo_tpo = ''tpo''
   \<and> find_one (\<lambda>d. drv_id d = ''d1'') (drives demo_db) = Some demo_drive
   \<and> (\<exists>db1 a.
        db1 = reject_loop [''a1''] demo_db
        \<and> stored db1 ''a1'' = Some a \<and> current_round a = ''Rejected''
        \<and> (\<exists>resp db'. reject_applications demo_tpo [''a1''] db1 = Inr (resp, db')
               \<and> stored db' ''a1'' = Some a)
        \<and> (\<exists>resp db' out a'.
               select_for_round demo_clock demo_tpo [''a1''] ''HR'' ''d1'' db1
                 = Inr (resp, db', out)
               \<and> stored db' ''a1'' = Some a'
               \<and> current_round a' = ''HR''
               \<and> round_history a' = [\<lparr>round_name = ''HR'', selected_at = demo_clock 0\<rparr>]))"
proof -
  define db1 where "db1 = reject_loop [''a1''] demo_db"
  define a where "a = (new_application ''a1'' ''d1'' ''s1'' (Some 72.5) ''t0'')
                         \<lparr>current_round := ''Rejected''\<rparr>"
  have st: "stored db1 ([''a1''] ! 0) = Some a"
    by (simp add: db1_def a_def reject_loop_stored demo_stored del: reject_loop.simps)
  have cr: "current_round a = ''Rejected''" by (simp add: a_def)
  have hist: "round_history a = []" by (simp add: a_def new_application_def)
  have drv: "find_one (\<lambda>d. drv_id d = ''d1'') (drives db1) = Some demo_drive"
    by (simp add: db1_def reject_loop_frame demo_drive_found del: reject_loop.simps)
  have d: "distinct [''a1'']" and j: "(0::nat) < length [''a1'']" by simp_all
  from transitions_from_rejected [OF demo_tpo_role drv d j st cr, of demo_clock "''HR''"] hist
  have "(\<exists>resp db'. reject_applications demo_tpo [''a1''] db1 = Inr (resp, db')
               \<and> stored db' ''a1'' = Some a)
        \<and> (\<exists>resp db' out a'.
               select_for_round demo_clock demo_tpo [''a1''] ''HR'' ''d1'' db1
                 = Inr (resp, db', out)
               \<and> stored db' ''a1'' = Some a'
               \<and> current_round a' = ''HR''
               \<and> round_history a' = [\<lparr>round_name = ''HR'', selected_at = demo_clock 0\<rparr>])"
    by simp
  with st cr db1_def demo_tpo_role demo_drive_found show ?thesis by auto
qed

text \<open>
  Claim C2, amended. A TPO runs a batch (for an advance, on an existing drive). No error
  is returned. Every identifier of the batch that matches a stored application has the
  transition applied, identifiers that match nothing stay unmatched, and applications
  outside the batch are untouched. The count in the message of the response is the length
  of the list of identifiers, valid or not. The advance also returns
  \<open>emails_sent\<close>, the number of identifiers of the batch that match an application
  whose student is a stored user.
\<close>

theorem batch_message_counts_input_length:
  assumes "role current_user = ''tpo''"
    and "find_one (\<lambda>d. drv_id d = did) (drives db) = Some drive"
  shows "(\<exists>resp db' out.
            select_for_round clock current_user application_ids next_round did db
              = Inr (resp, db', out)
            \<and> message resp = ''Selected '' @ string_of_nat (length application_ids)
                 @ '' students for '' @ next_round
            \<and> emails_sent resp = length (filter (has_contact db) application_ids)
            \<and> (\<forall>k a. k \<in> set application_ids \<and> stored db k = Some a \<longrightarrow>
                  (\<exists>a'. stored db' k = Some a' \<and> current_round a' = next_round))
            \<and> (\<forall>k. stored db k = None \<longrightarrow> stored db' k = None)
            \<and> (\<forall>k. k \<notin> set application_ids \<longrightarrow> stored db' k = stored db k))
       \<and> (\<exists>resp db'.
            reject_applications current_user application_ids db = Inr (resp, db')
            \<and> message resp = ''Rejected '' @ string_of_nat (length application_ids)
                 @ '' applications''
            \<and> (\<forall>k. stored db' k
                  = (if k \<in> set application_ids
                     then map_option (\<lambda>a. a\<lparr>current_round := ''Rejected''\<rparr>) (stored db k)
                     else stored db k)))"
proof -
  obtain db' sel where loop: "select_loop next_round clock 0 application_ids db [] = (db', sel)"
    by (cases "select_loop next_round clock 0 application_ids db []")
  then have db': "db' = fst (select_loop next_round clock 0 application_ids db [])"
    and sel: "sel = snd (select_loop next_round clock 0 application_ids db [])"
    by simp_all
  have run: "select_for_round clock current_user application_ids next_round did db
          = Inr (\<lparr>message = ''Selected '' @ string_of_nat (length application_ids)
                      @ '' students for '' @ next_round,
                   emails_sent = length sel\<rparr>,
                 db', map (compose_mail next_round drive) sel)"
    using assms loop by (simp add: select_for_round_def)
  have cnt: "length sel = length (filter (has_contact db) application_ids)"
    unfolding sel by (simp add: select_loop_count)
  have upd: "\<forall>k a. k \<in> set application_ids \<and> stored db k = Some a \<longrightarrow>
                  (\<exists>a'. stored db' k = Some a' \<and> current_round a' = next_round)"
    unfolding db' using select_loop_round by blast
  have none: "\<forall>k. stored db k = None \<longrightarrow> stored db' k = None"
    unfolding db' by (simp add: select_loop_none)
  have other: "\<forall>k. k \<notin> set application_ids \<longrightarrow> stored db' k = stored db k"
    unfolding db' by (simp add: select_loop_untouched)
  have sel_part: "\<exists>resp db' out.
            select_for_round clock current_user application_ids next_round did db
              = Inr (resp, db', out)
            \<and> message resp = ''Selected '' @ string_of_nat (length application_ids)
                 @ '' students for '' @ next_round
            \<and> emails_sent resp = length (filter (has_contact db) application_ids)
            \<and> (\<forall>k a. k \<in> set application_ids \<and> stored db k = Some a \<longrightarrow>
                  (\<exists>a'. stored db' k = Some a' \<and> current_round a' = next_round))
            \<and> (\<forall>k. stored db k = None \<longrightarrow> stored db' k = None)
            \<and> (\<forall>k. k \<notin> set application_ids \<longrightarrow> stored db' k = stored db k)"
    using run cnt upd none other by simp
  have rej_part: "\<exists>resp db'.
            reject_applications current_user application_ids db = Inr (resp, db')
            \<and> message resp = ''Rejected '' @ string_of_nat (length application_ids)
                 @ '' applications''
            \<and> (\<forall>k. stored db' k
                  = (if k \<in> set application_ids
                     then map_option (\<lambda>a. a\<lparr>current_round := ''Rejected''\<rparr>) (stored db k)
                     else stored db k))"
    using assms(1) by (simp add: reject_applications_def reject_loop_stored)
  from sel_part rej_part show ?thesis by (rule conjI)
qed

text \<open>
  Claim C2, the amended statement on the example batch (three stored applications and one
  unknown identifier): the three applications are updated, the messages count 4, and
  three contacts are collected.
\<close>

theorem batch_message_counts_input_length_witness:
  "role demo_tpo = ''tpo''
   \<and> find_one (\<lambda>d. drv_id d = ''d1'') (drives demo_db) = Some demo_drive
   \<and> stored demo_db ''zz'' = None
   \<and> (\<exists>resp db' out a1 a2 a3.
        select_for_round demo_clock demo_tpo demo_batch ''Coding'' ''d1'' demo_db
          = Inr (resp, db', out)
        \<and> message resp = ''Selected 4 students for Coding''
        \<and> emails_sent resp = 3
        \<and> stored db' ''a1'' = Some a1 \<and> current_round a1 = ''Coding''
        \<and> stored db' ''a2'' = Some a2 \<and> current_round a2 = ''Coding''
        \<and> stored db' ''a3'' = Some a3 \<and> current_round a3 = ''Coding''
        \<and> stored db' ''zz'' = None
        \<and> stored db' ''a4'' = stored demo_db ''a4'')
   \<and> (\<exists>resp db'.
        reject_applications demo_tpo demo_batch demo_db = Inr (resp, db')
        \<and> message resp = ''Rejected 4 applications''
        \<and> map_option current_round (stored db' ''a1'') = Some ''Rejected''
        \<and> map_option current_round (stored db' ''a2'') = Some ''Rejected''
        \<and> map_option current_round (stored db' ''a3'') = Some ''Rejected''
        \<and> stored db' ''zz'' = None)"
proof -
  note inst = batch_message_counts_input_length [OF demo_tpo_role demo_drive_found,
      of demo_clock demo_batch "''Coding''"]
  from inst obtain resp db' out where
    run: "select_for_round demo_clock demo_tpo demo_batch ''Coding'' ''d1'' demo_db
            = Inr (resp, db', out)"
    and msg: "message resp = ''Selected '' @ string_of_nat (length demo_batch)
                 @ '' students for '' @ ''Coding''"
    and cnt: "emails_sent resp = length (filter (has_contact demo_db) demo_batch)"
    and upd: "\<forall>k a. k \<in> set demo_batch \<and> stored demo_db k = Some a \<longrightarrow>
                  (\<exists>a'. stored db' k = Some a' \<and> current_round a' = ''Coding'')"
    and none: "\<forall>k. stored demo_db k = None \<longrightarrow> stored db' k = None"
    and other: "\<forall>k. k \<notin> set demo_batch \<longrightarrow> stored db' k = stored demo_db k"
    by blast
  have msg': "message resp = ''Selected 4 students for Coding''"
    using msg by (simp add: demo_batch_count)
  have cnt': "emails_sent resp = 3" using cnt by (simp add: demo_batch_contacts)
  have mem: "''a1'' \<in> set demo_batch" "''a2'' \<in> set demo_batch" "''a3'' \<in> set demo_batch"
    "''a4'' \<notin> set demo_batch"
    by (simp_all add: demo_batch_def)
  from upd mem(1) demo_stored(1) obtain a1 where
    a1: "stored db' ''a1'' = Some a1" "current_round a1 = ''Coding''" by blast
  from upd mem(2) demo_stored(2) obtain a2 where
    a2: "stored db' ''a2'' = Some a2" "current_round a2 = ''Coding''" by blast
  from upd mem(3) demo_stored(3) obtain a3 where
    a3: "stored db' ''a3'' = Some a3" "current_round a3 = ''Coding''" by blast
  from none demo_stored(4) have zz: "stored db' ''zz'' = None" by blast
  from other mem(4) have a4: "stored db' ''a4'' = stored demo_db ''a4''" by blast
  have sel_part: "\<exists>resp db' out a1 a2 a3.
        select_for_round demo_clock demo_tpo demo_batch ''Coding'' ''d1'' demo_db
          = Inr (resp, db', out)
        \<and> message resp = ''Selected 4 students for Coding''
        \<and> emails_sent resp = 3
        \<and> stored db' ''a1'' = Some a1 \<and> current_round a1 = ''Coding''
        \<and> stored db' ''a2'' = Some a2 \<and> current_round a2 = ''Coding''
        \<and> stored db' ''a3'' = Some a3 \<and> current_round a3 = ''Coding''
        \<and> stored db' ''zz'' = None
        \<and> stored db' ''a4'' = stored demo_db ''a4''"
    using run msg' cnt' a1 a2 a3 zz a4 by blast
  from inst obtain resp2 db2 where
    run2: "reject_applications demo_tpo demo_batch demo_db = Inr (resp2, db2)"
    and msg2: "message resp2 = ''Rejected '' @ string_of_nat (length demo_batch)
                 @ '' applications''"
    and st2: "\<forall>k. stored db2 k
                  = (if k \<in> set demo_batch
                     then map_option (\<lambda>a. a\<lparr>current_round := ''Rejected''\<rparr>) (stored demo_db k)
                     else stored demo_db k)"
    by blast
  have msg2': "message resp2 = ''Rejected 4 applications''"
    using msg2 by (simp add: demo_batch_count)
  have r: "map_option current_round (stored db2 ''a1'') = Some ''Rejected''"
    "map_option current_round (stored db2 ''a2'') = Some ''Rejected''"
    "map_option current_round (stored db2 ''a3'') = Some ''Rejected''"
    "stored db2 ''zz'' = None"
    by (simp_all add: st2 mem demo_stored demo_batch_def)
  have rej_part: "\<exists>resp db'.
        reject_applications demo_tpo demo_batch demo_db = Inr (resp, db')
        \<and> message resp = ''Rejected 4 applications''
        \<and> map_option current_round (stored db' ''a1'') = Some ''Rejected''
        \<and> map_option current_round (stored db' ''a2'') = Some ''Rejected''
        \<and> map_option current_round (stored db' ''a3'') = Some ''Rejected''
        \<and> stored db' ''zz'' = None"
    using run2 msg2' r by blast
  from demo_tpo_role demo_drive_found demo_stored(4) sel_part rej_part
  show ?thesis by (intro conjI)
qed

text \<open>
  Claim C2 as stated fails: for three stored applications and one unknown identifier the
  responses say "Rejected 4 applications" and "Selected 4 students for Coding", the
  length of the input list, not the three applications processed.
\<close>

theorem batch_count_includes_unknown_id:
  "stored demo_db ''zz'' = None
   \<and> stored demo_db ''a1'' \<noteq> None \<and> stored demo_db ''a2'' \<noteq> None
   \<and> stored demo_db ''a3'' \<noteq> None
   \<and> demo_batch = [''a1'', ''zz'', ''a2'', ''a3'']
   \<and> (case reject_applications demo_tpo demo_batch demo_db of
         Inl e \<Rightarrow> False
       | Inr (resp, db') \<Rightarrow> message resp = ''Rejected 4 applications'')
   \<and> (case select_for_round demo_clock demo_tpo demo_batch ''Coding'' ''d1'' demo_db of
         Inl e \<Rightarrow> False
       | Inr (resp, db', out) \<Rightarrow> message resp = ''Selected 4 students for Coding'')"
proof -
  have "case select_for_round demo_clock demo_tpo demo_batch ''Coding'' ''d1'' demo_db of
         Inl e \<Rightarrow> False
       | Inr (resp, db', out) \<Rightarrow> message resp = ''Selected 4 students for Coding''"
    using demo_tpo_role demo_drive_found
    by (simp add: select_for_round_def demo_batch_count split: prod.splits)
  moreover have "case reject_applications demo_tpo demo_batch demo_db of
         Inl e \<Rightarrow> False
       | Inr (resp, db') \<Rightarrow> message resp = ''Rejected 4 applications''"
    using demo_tpo_role
    by (simp add: reject_applications_def demo_batch_count)
  ultimately show ?thesis by (simp add: demo_stored demo_batch_def)
qed

lemma lower_examples:
  "lower ''Java'' = ''java''"
  "lower ''JAVA'' = ''java''"
  "lower ''java'' = ''java''"
  "lower ''sql'' = ''sql''"
  "lower ''python'' = ''python''"
  by code_simp+

text \<open>
  Claim C9 on an example: the student has Java and sql, the drive requires java, JAVA and
  python. One skill matches, the list has three entries, two of them distinct: the score
  is 10, below the 15 of the fraction over distinct skills.
\<close>

theorem skills_score_divides_by_list_length_witness:
  "[''Java'', ''sql''] \<noteq> [] \<and> [''java'', ''JAVA'', ''python''] \<noteq> []
   \<and> \<not> distinct (map lower [''java'', ''JAVA'', ''python''])
   \<and> set (map lower [''Java'', ''sql'']) \<inter> set (map lower [''java'', ''JAVA'', ''python''])
        \<noteq> {}
   \<and> skills_score [''Java'', ''sql''] [''java'', ''JAVA'', ''python''] = (1 / 3) * 30
   \<and> skills_score [''Java'', ''sql''] [''java'', ''JAVA'', ''python''] < (1 / 2) * 30
   \<and> 0 \<le> skills_score [''Java'', ''sql''] [''java'', ''JAVA'', ''python'']
   \<and> skills_score [''Java'', ''sql''] [''java'', ''JAVA'', ''python''] \<le> 30"
proof -
  have ne: "[''Java'', ''sql''] \<noteq> []" "[''java'', ''JAVA'', ''python''] \<noteq> []" by simp_all
  have dup: "\<not> distinct (map lower [''java'', ''JAVA'', ''python''])"
    by (simp add: lower_examples)
  have inter: "set (map lower [''Java'', ''sql''])
                 \<inter> set (map lower [''java'', ''JAVA'', ''python'']) = {''java''}"
    by (simp add: lower_examples)
  have req: "card (set (map lower [''java'', ''JAVA'', ''python''])) = 2"
    by (simp add: lower_examples)
  have hit: "set (map lower [''Java'', ''sql''])
                 \<inter> set (map lower [''java'', ''JAVA'', ''python'']) \<noteq> {}"
    by (simp only: inter) simp
  note inst = skills_score_divides_by_list_length
      [of "[''Java'', ''sql'']" "[''java'', ''JAVA'', ''python'']"]
  have "skills_score [''Java'', ''sql''] [''java'', ''JAVA'', ''python'']
          = (real (card (set (map lower [''Java'', ''sql''])
                \<inter> set (map lower [''java'', ''JAVA'', ''python''])))
             / real (length [''java'', ''JAVA'', ''python''])) * 30"
    by (rule mp [OF conjunct1 [OF inst]]) (intro conjI ne)
  then have f: "skills_score [''Java'', ''sql''] [''java'', ''JAVA'', ''python''] = (1 / 3) * 30"
    by (simp only: inter) simp
  have "skills_score [''Java'', ''sql''] [''java'', ''JAVA'', ''python'']
          < (real (card (set (map lower [''Java'', ''sql''])
                \<inter> set (map lower [''java'', ''JAVA'', ''python''])))
             / real (card (set (map lower [''java'', ''JAVA'', ''python''])))) * 30"
    by (rule mp [OF conjunct1 [OF conjunct2 [OF inst]]]) (intro conjI ne dup hit)
  then have g: "skills_score [''Java'', ''sql''] [''java'', ''JAVA'', ''python''] < (1 / 2) * 30"
    by (simp only: inter req) simp
  have lo: "0 \<le> skills_score [''Java'', ''sql''] [''java'', ''JAVA'', ''python'']"
    by (rule conjunct1 [OF conjunct2 [OF conjunct2 [OF inst]]])
  have hi: "skills_score [''Java'', ''sql''] [''java'', ''JAVA'', ''python''] \<le> 30"
    by (rule conjunct2 [OF conjunct2 [OF conjunct2 [OF inst]]])
  show ?thesis by (intro conjI ne dup hit f g lo hi)
qed

section \<open>Ranking\<close>

lemma demo_pool:
  "map (\<lambda>x. (app_id x, ai_score x)) (drive_pool demo_db ''d1'')
     = [(''a1'', Some 72.5), (''a2'', Some 91), (''a3'', Some 91), (''a4'', Some 40)]"
  by (simp add: drive_pool_def demo_db_def new_application_def enrich_def application.defs)

lemma demo_ranked:
  "map (\<lambda>x. (app_id x, ai_score x)) (sort_reverse score_key (drive_pool demo_db ''d1''))
     = [(''a2'', Some 91), (''a3'', Some 91), (''a1'', Some 72.5), (''a4'', Some 40)]"
  by (simp add: drive_pool_def demo_db_def new_application_def enrich_def application.defs
      sort_reverse_def score_key_def)

lemma demo_ties:
  "map app_id (filter (\<lambda>x. score_key x = 91) (drive_pool demo_db ''d1'')) = [''a2'', ''a3'']"
  by (simp add: drive_pool_def demo_db_def new_application_def enrich_def application.defs
      score_key_def)

lemma unscored_ranked:
  "map (\<lambda>x. (app_id x, ai_score x)) (sort_reverse score_key (drive_pool unscored_db ''d2''))
     = [(''b2'', Some 55), (''b1'', None)]"
  by (simp add: drive_pool_def unscored_db_def new_application_def enrich_def
      application.defs sort_reverse_def score_key_def)

lemma ranking_runs:
  "role current_user = ''tpo'' \<or> role current_user = ''hod''
     \<Longrightarrow> get_drive_applications did current_user db
           = Inr (sort_reverse score_key (drive_pool db did))"
  by (auto simp: get_drive_applications_def)

text \<open>
  Claim C8. For a TPO or HOD the ranking returns the applications found for the drive (the
  first 1000 in storage order, enriched) sorted by score descending, a missing score
  counting as 0. The result is a permutation of the applications found, and the sort is
  stable: the applications of any one score are in the order in which they were found.
  The same holds for the sort on every list \<open>xs\<close> of applications. On the
  example the scores 72.5, 91, 91, 40 of a1 to a4 come out as 91, 91, 72.5, 40 with a2
  before a3.
\<close>

theorem ranking_descending_stable:
  assumes "role current_user = ''tpo'' \<or> role current_user = ''hod''"
  shows "(\<exists>ranked.
            get_drive_applications did current_user db = Inr ranked
            \<and> sorted_wrt (\<lambda>a b. score_key b \<le> score_key a) ranked
            \<and> mset ranked = mset (drive_pool db did)
            \<and> filter (\<lambda>x. score_key x = s) ranked
                 = filter (\<lambda>x. score_key x = s) (drive_pool db did))
       \<and> sorted_wrt (\<lambda>a b. score_key b \<le> score_key a) (sort_reverse score_key xs)
       \<and> mset (sort_reverse score_key xs) = mset xs
       \<and> filter (\<lambda>x. score_key x = s) (sort_reverse score_key xs)
            = filter (\<lambda>x. score_key x = s) xs
       \<and> map (\<lambda>x. (app_id x, ai_score x)) (drive_pool demo_db ''d1'')
           = [(''a1'', Some 72.5), (''a2'', Some 91), (''a3'', Some 91), (''a4'', Some 40)]
       \<and> map (\<lambda>x. (app_id x, ai_score x)) (sort_reverse score_key (drive_pool demo_db ''d1''))
           = [(''a2'', Some 91), (''a3'', Some 91), (''a1'', Some 72.5), (''a4'', Some 40)]"
proof -
  have "\<exists>ranked.
            get_drive_applications did current_user db = Inr ranked
            \<and> sorted_wrt (\<lambda>a b. score_key b \<le> score_key a) ranked
            \<and> mset ranked = mset (drive_pool db did)
            \<and> filter (\<lambda>x. score_key x = s) ranked
                 = filter (\<lambda>x. score_key x = s) (drive_pool db did)"
    by (simp add: ranking_runs [OF assms] sort_reverse_descending sort_reverse_mset
        sort_reverse_stable)
  with demo_pool demo_ranked show ?thesis
    by (intro conjI sort_reverse_descending sort_reverse_mset sort_reverse_stable)
qed

text \<open>
  Claim C8 on the example, for the TPO.
\<close>

theorem ranking_descending_stable_witness:
  "(role demo_tpo = ''tpo'' \<or> role demo_tpo = ''hod'')
   \<and> (\<exists>ranked.
         get_drive_applications ''d1'' demo_tpo demo_db = Inr ranked
         \<and> map (\<lambda>x. (app_id x, ai_score x)) ranked
             = [(''a2'', Some 91), (''a3'', Some 91), (''a1'', Some 72.5), (''a4'', Some 40)]
         \<and> sorted_wrt (\<lambda>a b. score_key b \<le> score_key a) ranked
         \<and> map app_id (filter (\<lambda>x. score_key x = 91) ranked) = [''a2'', ''a3''])"
proof -
  have r: "role demo_tpo = ''tpo'' \<or> role demo_tpo = ''hod''"
    by (simp add: demo_tpo_role)
  from conjunct1 [OF ranking_descending_stable [OF r, of "''d1''" demo_db 91]]
  obtain ranked where
    run: "get_drive_applications ''d1'' demo_tpo demo_db = Inr ranked"
    and srt: "sorted_wrt (\<lambda>a b. score_key b \<le> score_key a) ranked"
    and stable: "filter (\<lambda>x. score_key x = 91) ranked
                   = filter (\<lambda>x. score_key x = 91) (drive_pool demo_db ''d1'')"
    by blast
  from run have "ranked = sort_reverse score_key (drive_pool demo_db ''d1'')"
    by (simp only: ranking_runs [OF r] sum.inject)
  then have order: "map (\<lambda>x. (app_id x, ai_score x)) ranked
             = [(''a2'', Some 91), (''a3'', Some 91), (''a1'', Some 72.5), (''a4'', Some 40)]"
    by (simp only: demo_ranked)
  have ties: "map app_id (filter (\<lambda>x. score_key x = 91) ranked) = [''a2'', ''a3'']"
    by (simp only: stable demo_ties)
  show ?thesis using r run srt order ties by (intro conjI exI [of _ ranked])
qed

text \<open>
  Claim C10. The ranking returns a list for every TPO or HOD, also when an application
  has no \<open>ai_score\<close>. Such an application has the sort key 0 and stands after every
  application with a positive score.
\<close>

theorem unscored_application_ranks_last:
  "(role current_user = ''tpo'' \<or> role current_user = ''hod'' \<longrightarrow>
      (\<exists>ranked. get_drive_applications did current_user db = Inr ranked))
   \<and> (get_drive_applications did current_user db = Inr ranked
        \<and> i < length ranked \<and> j < length ranked
        \<and> ai_score (ranked ! i) = None
        \<and> ai_score (ranked ! j) = Some s \<and> 0 < s \<longrightarrow>
      score_key (ranked ! i) = 0 \<and> j < i)"
proof -
  have total: "\<exists>ranked. get_drive_applications did current_user db = Inr ranked"
    if "role current_user = ''tpo'' \<or> role current_user = ''hod''"
    using that by (simp add: ranking_runs)
  have order: "score_key (ranked ! i) = 0 \<and> j < i"
    if run: "get_drive_applications did current_user db = Inr ranked"
      and i: "i < length ranked" and j: "j < length ranked"
      and none: "ai_score (ranked ! i) = None"
      and some: "ai_score (ranked ! j) = Some s" and pos: "0 < s"
  proof -
    from run have "ranked = sort_reverse score_key (drive_pool db did)"
      by (simp add: get_drive_applications_def split: if_splits)
    then have srt: "sorted_wrt (\<lambda>a b. score_key b \<le> score_key a) ranked"
      by (simp add: sort_reverse_descending)
    have ki: "score_key (ranked ! i) = 0" using none by (simp add: score_key_def)
    have kj: "score_key (ranked ! j) = s" using some by (simp add: score_key_def)
    have "i \<noteq> j" using none some by auto
    moreover have "\<not> i < j"
    proof
      assume "i < j"
      with srt j have "score_key (ranked ! j) \<le> score_key (ranked ! i)"
        by (simp add: sorted_wrt_iff_nth_less)
      with ki kj pos show False by simp
    qed
    ultimately have "j < i" by simp
    with ki show ?thesis by simp
  qed
  from total order show ?thesis by blast
qed

text \<open>
  Claim C10 on the example: b1 has no score and is ranked after b2, whose score is 55.
\<close>

theorem unscored_application_ranks_last_witness:
  "(role demo_tpo = ''tpo'' \<or> role demo_tpo = ''hod'')
   \<and> (\<exists>ranked.
         get_drive_applications ''d2'' demo_tpo unscored_db = Inr ranked
         \<and> map (\<lambda>x. (app_id x, ai_score x)) ranked = [(''b2'', Some 55), (''b1'', None)]
         \<and> Suc 0 < length ranked
         \<and> ai_score (ranked ! Suc 0) = None
         \<and> ai_score (ranked ! 0) = Some 55
         \<and> score_key (ranked ! Suc 0) = 0)"
proof -
  have r: "role demo_tpo = ''tpo'' \<or> role demo_tpo = ''hod''"
    by (simp add: demo_tpo_role)
  define ranked where "ranked = sort_reverse score_key (drive_pool unscored_db ''d2'')"
  have run: "get_drive_applications ''d2'' demo_tpo unscored_db = Inr ranked"
    by (simp only: ranking_runs [OF r] ranked_def)
  have order: "map (\<lambda>x. (app_id x, ai_score x)) ranked = [(''b2'', Some 55), (''b1'', None)]"
    by (simp only: ranked_def unscored_ranked)
  have "length (map (\<lambda>x. (app_id x, ai_score x)) ranked) = 2"
    by (simp only: order) simp
  then have len: "length ranked = 2" by simp
  have i: "Suc 0 < length ranked" and j: "0 < length ranked" using len by simp_all
  have "map (\<lambda>x. (app_id x, ai_score x)) ranked ! Suc 0 = (''b1'', None)"
    by (simp only: order) simp
  with i have none: "ai_score (ranked ! Suc 0) = None" by simp
  have "map (\<lambda>x. (app_id x, ai_score x)) ranked ! 0 = (''b2'', Some 55)"
    by (simp only: order) simp
  with j have some: "ai_score (ranked ! 0) = Some 55" by simp
  from unscored_application_ranks_last
         [of demo_tpo "''d2''" unscored_db ranked "Suc 0" 0 55] run i j none some
  have "score_key (ranked ! Suc 0) = 0" by simp
  then show ?thesis using r run order i none some by (intro conjI exI [of _ ranked])
qed

section \<open>The end-to-end scenario\<close>

lemma skills_example: "skills_score [''java'', ''sql''] [''java'', ''python''] = 15"
  by (simp add: skills_score_def Let_def lower_examples)

text \<open>
  Claim C6. The text score of an empty resume is 0 whatever the library would return; the
  skills score of java, sql against java, python is \<open>(1 / 2) * 30 = 15\<close>; the CGPA
  score of 8.5 against the minimum 7 is 8.5; the composite of these inputs is 23.5.
\<close>

theorem end_to_end_scenario:
  "text_score similarity [] ''Java developer role'' = 0
   \<and> skills_score [''java'', ''sql''] [''java'', ''python''] = (1 / 2) * 30
   \<and> skills_score [''java'', ''sql''] [''java'', ''python''] = 15
   \<and> cgpa_score 8.5 7 = 8.5
   \<and> score_resume similarity [] [''java'', ''sql''] 8.5 ''Java developer role''
        [''java'', ''python''] 7 = 23.5"
proof -
  have t: "text_score similarity [] ''Java developer role'' = 0"
    by (simp add: text_score_def)
  have c: "cgpa_score 8.5 7 = 8.5" by (simp add: cgpa_score_def)
  have "py_round2 (min 100 (max 0 (0 + 15 + 8.5))) = 23.5"
    by (simp add: py_round2_def round_half_even_def)
  then have s: "score_resume similarity [] [''java'', ''sql''] 8.5 ''Java developer role''
        [''java'', ''python''] 7 = 23.5"
    by (simp only: score_resume_def Let_def t c skills_example)
  have h: "skills_score [''java'', ''sql''] [''java'', ''python''] = (1 / 2) * 30"
    by (simp add: skills_example)
  from t h skills_example c s show ?thesis by (intro conjI)
qed

end
